theory Spec2Isabelle
  imports Main
begin

section \<open>Strings of the program\<close>

text \<open>
  A JavaScript string is a sequence of UTF-16 code units; \<open>.length\<close> counts them.
  The model keeps a string as the list of its code units, so that the Unicode white
  space that \<open>\s\<close> and \<open>trim()\<close> recognise is part of the model. \<open>js\<close> turns
  an ASCII literal into such a list.
\<close>

type_synonym jsstring = "nat list"

definition js :: "string \<Rightarrow> jsstring" where
  "js s = map of_char s"

text \<open>
  White space of \<open>\s\<close> and of \<open>String.prototype.trim\<close>: the WhiteSpace and
  LineTerminator productions of ECMAScript (TAB, LF, VT, FF, CR, SP, NBSP, U+1680,
  U+2000..U+200A, U+2028, U+2029, U+202F, U+205F, U+3000, U+FEFF).
\<close>

definition isSpace :: "nat \<Rightarrow> bool" where
  "isSpace c = ((9 \<le> c \<and> c \<le> 13) \<or> c = 32 \<or> c = 160 \<or> c = 5760 \<or>
     (8192 \<le> c \<and> c \<le> 8202) \<or> c = 8232 \<or> c = 8233 \<or> c = 8239 \<or> c = 8287 \<or>
     c = 12288 \<or> c = 65279)"

definition trim :: "jsstring \<Rightarrow> jsstring" where
  "trim s = rev (dropWhile isSpace (rev (dropWhile isSpace s)))"

definition isDigit :: "nat \<Rightarrow> bool" where
  "isDigit c = (48 \<le> c \<and> c \<le> 57)"

definition isUpper :: "nat \<Rightarrow> bool" where
  "isUpper c = (65 \<le> c \<and> c \<le> 90)"

definition isLower :: "nat \<Rightarrow> bool" where
  "isLower c = (97 \<le> c \<and> c \<le> 122)"

definition isLetter :: "nat \<Rightarrow> bool" where
  "isLetter c = (isUpper c \<or> isLower c)"

text \<open>
  The \<open>i\<close> flag compares canonicalised code units. Without the \<open>u\<close> flag the
  canonical form is the upper-case mapping, except that a code unit of 128 or more is
  never mapped to one below 128. Every pattern of the program is ASCII, so only the ASCII
  part of the mapping decides a match; outside ASCII the model leaves the unit as it is.
\<close>

definition canonicalize :: "nat \<Rightarrow> nat" where
  "canonicalize c = (if isLower c then c - 32 else c)"

text \<open>Single-character matchers: a literal under the \<open>i\<close> flag, and the dot
  (anything but a line terminator).\<close>

definition ci :: "nat \<Rightarrow> nat \<Rightarrow> bool" where
  "ci p c = (canonicalize c = canonicalize p)"

definition dot :: "nat \<Rightarrow> bool" where
  "dot c = (c \<noteq> 10 \<and> c \<noteq> 13 \<and> c \<noteq> 8232 \<and> c \<noteq> 8233)"

text \<open>A pattern text made of literals and dots, under the \<open>i\<close> flag.\<close>

definition pat :: "string \<Rightarrow> (nat \<Rightarrow> bool) list" where
  "pat s = map (\<lambda>ch. if ch = CHR ''.'' then dot else ci (of_char ch)) s"

text \<open>\<open>/^p1 p2 ... pn/\<close>: the string starts with one character of each class in turn.\<close>

fun matchPrefix :: "(nat \<Rightarrow> bool) list \<Rightarrow> jsstring \<Rightarrow> bool" where
  "matchPrefix [] s = True"
| "matchPrefix (p # ps) [] = False"
| "matchPrefix (p # ps) (c # cs) = (p c \<and> matchPrefix ps cs)"

text \<open>\<open>/p1 p2 ... pn/\<close> without an anchor: the pattern matches at some position.\<close>

fun search :: "(nat \<Rightarrow> bool) list \<Rightarrow> jsstring \<Rightarrow> bool" where
  "search ps [] = matchPrefix ps []"
| "search ps (c # cs) = (matchPrefix ps (c # cs) \<or> search ps cs)"

text \<open>\<open>/^a.*b$/\<close>: first character \<open>a\<close>, last character \<open>b\<close> (a different
  position), no line terminator between them.\<close>

definition wrapped :: "nat \<Rightarrow> nat \<Rightarrow> jsstring \<Rightarrow> bool" where
  "wrapped a b s =
     (case s of [] \<Rightarrow> False
      | c # cs \<Rightarrow> c = a \<and> cs \<noteq> [] \<and> last cs = b \<and> list_all dot (butlast cs))"

text \<open>\<open>/a\s*"/\<close>: somewhere an \<open>a\<close>, then white space, then a double quote.\<close>

fun beforeQuote :: "nat \<Rightarrow> jsstring \<Rightarrow> bool" where
  "beforeQuote a [] = False"
| "beforeQuote a (c # cs) =
     ((c = a \<and> (case dropWhile isSpace cs of [] \<Rightarrow> False | d # _ \<Rightarrow> d = 34))
      \<or> beforeQuote a cs)"

text \<open>\<open>/^[a-z]{3,}[.][a-z]{3,}/i\<close>: the leading run of letters has at least three of
  them, a full stop follows it, and at least three letters follow the full stop.\<close>

definition dottedWords :: "jsstring \<Rightarrow> bool" where
  "dottedWords s =
     (3 \<le> length (takeWhile isLetter s) \<and>
      (case dropWhile isLetter s of [] \<Rightarrow> False
       | d # r \<Rightarrow> d = 46 \<and> 3 \<le> length (takeWhile isLetter r)))"

section \<open>TokenManager.isValidTokenFormat\<close>

text \<open>\<open>text.replace(/^Bearer\s+/i, '')\<close>: a match at position 0 takes the six letters
  and the whole run of white space after them (at least one).\<close>

definition hasBearerPrefix :: "jsstring \<Rightarrow> bool" where
  "hasBearerPrefix s = matchPrefix (pat ''Bearer'' @ [isSpace]) s"

definition replaceBearer :: "jsstring \<Rightarrow> jsstring" where
  "replaceBearer s = (if hasBearerPrefix s then dropWhile isSpace (drop 6 s) else s)"

definition cleanToken :: "jsstring \<Rightarrow> jsstring" where
  "cleanToken text = trim (replaceBearer text)"

text \<open>\<open>/^[A-Za-z0-9+/_-]+$/\<close>\<close>

definition tokenChar :: "nat \<Rightarrow> bool" where
  "tokenChar c = (isUpper c \<or> isLower c \<or> isDigit c \<or> c = 43 \<or> c = 47 \<or> c = 95 \<or> c = 45)"

definition webexTokenPattern :: "jsstring \<Rightarrow> bool" where
  "webexTokenPattern s = (s \<noteq> [] \<and> list_all tokenChar s)"

definition excludeJSONPatterns :: "(jsstring \<Rightarrow> bool) list" where
  "excludeJSONPatterns =
     [search (pat ''trackingId''),
      wrapped 123 125,
      wrapped 91 93,
      wrapped 34 34,
      beforeQuote 58,
      beforeQuote 44]"

definition excludePatterns :: "(jsstring \<Rightarrow> bool) list" where
  "excludePatterns =
     [matchPrefix (pat ''example''),
      matchPrefix (pat ''sample''),
      matchPrefix (pat ''demo''),
      matchPrefix (pat ''test''),
      matchPrefix (pat ''your.token.here''),
      matchPrefix (pat ''replace.with''),
      matchPrefix (pat ''placeholder''),
      matchPrefix (pat ''xxxxxxxx''),
      matchPrefix (pat ''aaaaaa''),
      matchPrefix (pat ''111111''),
      matchPrefix (pat ''000000''),
      matchPrefix (pat ''insert.your''),
      matchPrefix (pat ''put.your''),
      matchPrefix (pat ''add.your''),
      matchPrefix (pat ''enter.your''),
      matchPrefix (pat ''copy.your''),
      matchPrefix (replicate 10 (ci 120)),
      dottedWords]"

definition isValidTokenFormat :: "jsstring \<Rightarrow> bool" where
  "isValidTokenFormat text =
     (let cleaned = cleanToken text in
      if length cleaned < 80 then False
      else if \<not> webexTokenPattern cleaned then False
      else if list_ex (\<lambda>pattern. pattern cleaned) excludeJSONPatterns then False
      else if list_ex (\<lambda>pattern. pattern cleaned) excludePatterns then False
      else
        let hasNumbers = list_ex isDigit cleaned;
            hasUppercase = list_ex isUpper cleaned;
            hasLowercase = list_ex isLower cleaned;
            hasSpecialChars = list_ex (\<lambda>c. c = 95 \<or> c = 45) cleaned
        in if \<not> hasNumbers \<or> \<not> hasUppercase \<or> \<not> hasLowercase then False
           else if hasSpecialChars then True
           else True)"

text \<open>The debug line \<open>/^[A-Za-z0-9+/]+=*$/\<close> of the acquisition flow.\<close>

definition base64Char :: "nat \<Rightarrow> bool" where
  "base64Char c = (isUpper c \<or> isLower c \<or> isDigit c \<or> c = 43 \<or> c = 47)"

definition base64Format :: "jsstring \<Rightarrow> bool" where
  "base64Format s =
     (takeWhile base64Char s \<noteq> [] \<and> list_all (\<lambda>c. c = 61) (dropWhile base64Char s))"

section \<open>The capability calls of the acquisition flow\<close>

record TokenResponse =
  access_token :: jsstring
  refresh_token :: jsstring
  expires_in :: nat
  token_type :: jsstring

text \<open>
  Every call of \<open>getTokenAutomatically\<close> that can reject or throw, named after the
  method it calls. A selector call carries its selector; the two \<open>browser.close()\<close>
  calls carry their source line (308, 320), since they are the only call made twice.
  \<open>NewTokenManager\<close> is the constructor run by the \<open>login\<close> action.
  (\<open>browser.defaultBrowserContext()\<close>, \<open>page.url()\<close> and the timers only
  return, so they are left out.)
\<close>

datatype call =
    NewTokenManager
  | ImportPuppeteer
  | Launch
  | NewPage
  | EvaluateResize
  | OverridePermissions
  | Goto
  | WaitForSelector string
  | Click string
  | TypeText string
  | Focus string
  | EvaluateMaximize
  | EvaluateMinimize
  | ReadClipboard
  | Close nat
  | ValidatePersonalToken jsstring
  | SaveToken TokenResponse

text \<open>
  The world outside the program, as one run sees it. No call site except the avatar loop
  is reached twice in a run, and the loop visits each selector once, so the answer of the
  world at each call is a function of the call:
  \<^item> \<open>resolves c\<close>: the awaited call \<open>c\<close> fulfils (\<open>True\<close>) or rejects, times out
    or throws (\<open>False\<close>);
  \<^item> \<open>clipboardText\<close>: what \<open>navigator.clipboard.readText()\<close> yields when the
    evaluation fulfils (\<open>None\<close> for null or undefined);
  \<^item> \<open>apiStatus t\<close>: the status of the response to the identity request made with
    bearer \<open>t\<close> when \<open>axios.get\<close> fulfils, \<open>None\<close> when it throws.
\<close>

record env =
  resolves :: "call \<Rightarrow> bool"
  clipboardText :: "jsstring option"
  apiStatus :: "jsstring \<Rightarrow> nat option"

text \<open>\<open>validatePersonalToken\<close>: every error is caught and becomes \<open>false\<close>.\<close>

definition validatePersonalToken :: "env \<Rightarrow> jsstring \<Rightarrow> bool" where
  "validatePersonalToken E token =
     (case apiStatus E token of Some status \<Rightarrow> status = 200 | None \<Rightarrow> False)"

text \<open>Awaited calls in sequence inside one \<open>try\<close>: the first that rejects ends the
  sequence. The result says whether all fulfilled, and lists the calls made.\<close>

fun perform :: "env \<Rightarrow> call list \<Rightarrow> bool \<times> call list" where
  "perform E [] = (True, [])"
| "perform E (c # cs) =
     (if resolves E c then (let (done, made) = perform E cs in (done, c # made))
      else (False, [c]))"

definition setupCalls :: "call list" where
  "setupCalls = [ImportPuppeteer, Launch, NewPage, EvaluateResize, OverridePermissions, Goto]"

definition emailSelector2 :: string where
  "emailSelector2 = ''#login-parent > div > div.display-flex.flex-direction-column.flex-value-one.size-padding-left-large.size-padding-right-large > label > input''"

definition nextButtonSelector :: string where
  "nextButtonSelector = ''#login-parent > div > div.display-flex.flex-direction-column.flex-value-one.size-padding-left-large.size-padding-right-large > button''"

definition passwordSelector :: string where
  "passwordSelector = ''#login-parent > div > div.display-flex.flex-direction-column.flex-value-one.size-padding-left-large.size-padding-right-large > form > label > input''"

definition signInCalls :: "call list" where
  "signInCalls =
     [WaitForSelector ''#header-login-link'', Click ''#header-login-link'',
      WaitForSelector ''#IDToken1'', TypeText ''#IDToken1'',
      WaitForSelector ''#IDButton2'', Click ''#IDButton2'',
      WaitForSelector emailSelector2, TypeText emailSelector2,
      WaitForSelector nextButtonSelector, Click nextButtonSelector,
      WaitForSelector passwordSelector, EvaluateMaximize, Focus passwordSelector]"

definition trustCalls :: "call list" where
  "trustCalls =
     [WaitForSelector ''#trust-browser-button'', Click ''#trust-browser-button'',
      EvaluateMinimize]"

definition avatarSelectors :: "string list" where
  "avatarSelectors =
     [''#root > div > header > div > div > div.md-top-bar__right > div.md-top-bar__user > div'',
      ''.md-top-bar__user'',
      ''.md-avatar'',
      ''.user-image'',
      ''div.md-top-bar__user'',
      ''div.md-avatar'',
      ''img.user-image'']"

definition copyTokenSelector :: string where
  "copyTokenSelector = ''#copy-token-modal-button''"

definition okButtonSelector :: string where
  "okButtonSelector = ''#confirm-copy-button''"

text \<open>The loop over \<open>avatarSelectors\<close> (lines 252 to 262): wait and click sit in one
  \<open>try\<close> whose \<open>catch\<close> is empty; the \<open>break\<close> follows a click that fulfilled.
  The result is \<open>avatarClicked\<close> and the calls made.\<close>

fun avatarLoop :: "env \<Rightarrow> string list \<Rightarrow> bool \<times> call list" where
  "avatarLoop E [] = (False, [])"
| "avatarLoop E (selector # rest) =
     (if resolves E (WaitForSelector selector) then
        (if resolves E (Click selector) then
           (True, [WaitForSelector selector, Click selector])
         else (let (clicked, made) = avatarLoop E rest
               in (clicked, WaitForSelector selector # Click selector # made)))
      else (let (clicked, made) = avatarLoop E rest
            in (clicked, WaitForSelector selector # made)))"

text \<open>The clipboard read (lines 289 to 302), in its own \<open>try\<close>: the value left in
  \<open>token\<close> and the calls made.\<close>

definition readClipboard :: "env \<Rightarrow> jsstring option \<times> call list" where
  "readClipboard E =
     (if \<not> resolves E ReadClipboard then (None, [ReadClipboard])
      else case clipboardText E of
             None \<Rightarrow> (None, [ReadClipboard])
           | Some text \<Rightarrow>
               if text \<noteq> [] \<and> isValidTokenFormat text then (Some (trim text), [ReadClipboard])
               else (None, [ReadClipboard]))"

text \<open>The extraction block (lines 235 to 306): the avatar loop, the \<open>throw\<close> when no
  avatar was clicked, the copy and the confirm click, the clipboard read; everything
  thrown on the way is caught at line 304 and leaves \<open>token\<close> null.\<close>

definition extractToken :: "env \<Rightarrow> jsstring option \<times> call list" where
  "extractToken E =
     (let (avatarClicked, made1) = avatarLoop E avatarSelectors in
      if \<not> avatarClicked then (None, made1)
      else
        let (done, made2) =
              perform E [WaitForSelector copyTokenSelector, Click copyTokenSelector,
                         WaitForSelector okButtonSelector, Click okButtonSelector] in
        if \<not> done then (None, made1 @ made2)
        else let (token, made3) = readClipboard E in (token, made1 @ made2 @ made3))"

text \<open>How a run of \<open>getTokenAutomatically\<close> ends: \<open>process.exit(n)\<close>, the
  \<open>return\<close> of line 321 (no token) or the \<open>return\<close> of line 349 (token refused by
  the API).\<close>

datatype ending = ProcessExit nat | ReturnNoToken | ReturnInvalidToken

record run =
  ending :: ending
  trace :: "call list"

text \<open>From \<open>browser.close()\<close> at line 308 to the end of the \<open>try\<close>, with the
  outer \<open>catch\<close> (lines 366 to 375) as the \<open>ProcessExit 1\<close> branches.\<close>

definition afterExtraction :: "env \<Rightarrow> jsstring option \<Rightarrow> call list \<Rightarrow> run" where
  "afterExtraction E token made =
     (if \<not> resolves E (Close 308) then \<lparr>ending = ProcessExit 1, trace = made @ [Close 308]\<rparr>
      else case (case token of None \<Rightarrow> None | Some t \<Rightarrow> if t = [] then None else Some t) of
        None \<Rightarrow>
          (if \<not> resolves E (Close 320)
           then \<lparr>ending = ProcessExit 1, trace = made @ [Close 308, Close 320]\<rparr>
           else \<lparr>ending = ReturnNoToken, trace = made @ [Close 308, Close 320]\<rparr>)
      | Some t \<Rightarrow>
          (let token' = cleanToken t in
           if \<not> validatePersonalToken E token' then
             \<lparr>ending = ReturnInvalidToken,
              trace = made @ [Close 308, ValidatePersonalToken token']\<rparr>
           else
             let patTokenData = \<lparr>access_token = token', refresh_token = [], expires_in = 0,
                                 token_type = js ''Bearer''\<rparr>;
                 made' = made @ [Close 308, ValidatePersonalToken token', SaveToken patTokenData]
             in if \<not> resolves E (SaveToken patTokenData)
                then \<lparr>ending = ProcessExit 1, trace = made'\<rparr>
                else \<lparr>ending = ProcessExit 0, trace = made'\<rparr>))"

definition getTokenAutomatically :: "env \<Rightarrow> run" where
  "getTokenAutomatically E =
     (let (started, made0) = perform E setupCalls in
      if \<not> started then \<lparr>ending = ProcessExit 1, trace = made0\<rparr>
      else
        let (signedIn, made1) = perform E signInCalls;
            (trusted, made2) = perform E trustCalls;
            (token, made3) = extractToken E
        in afterExtraction E token (made0 @ made1 @ made2 @ made3))"

text \<open>The \<open>login\<close> command (lines 464 to 472) and the exit status of the process. A run
  that returns calls \<open>process.exit\<close> nowhere and sets no \<open>process.exitCode\<close>, so
  the process ends with status 0 once nothing is pending.\<close>

definition loginCommand :: "env \<Rightarrow> nat" where
  "loginCommand E =
     (if \<not> resolves E NewTokenManager then 1
      else case ending (getTokenAutomatically E) of
             ProcessExit n \<Rightarrow> n
           | ReturnNoToken \<Rightarrow> 0
           | ReturnInvalidToken \<Rightarrow> 0)"

definition isClose :: "call \<Rightarrow> bool" where
  "isClose c = (case c of Close n \<Rightarrow> True | _ \<Rightarrow> False)"

definition isSave :: "call \<Rightarrow> bool" where
  "isSave c = (case c of SaveToken t \<Rightarrow> True | _ \<Rightarrow> False)"

section \<open>TokenManager.saveToken\<close>

text \<open>
  What \<open>saveToken\<close> writes: the new content of the \<open>.env\<close> file and the content of
  \<open>webex-env.sh\<close>, from the token, the two readings of \<open>Date.now()\<close> (lines 33 and
  54) and the content of the \<open>.env\<close> file before the call (\<open>None\<close> when there is no
  file). \<open>numberToString\<close> is the decimal text that a template literal gives an integer
  (below \<open>10^21\<close>); \<open>split\<close>, \<open>join\<close> and \<open>startsWith\<close> are the methods of
  the same names.
\<close>

fun numberToString :: "nat \<Rightarrow> jsstring" where
  "numberToString n =
     (if n < 10 then [48 + n] else numberToString (n div 10) @ [48 + n mod 10])"

declare numberToString.simps [simp del]

fun split :: "nat \<Rightarrow> jsstring \<Rightarrow> jsstring list" where
  "split sep [] = [[]]"
| "split sep (c # cs) =
     (if c = sep then [] # split sep cs
      else case split sep cs of [] \<Rightarrow> [[c]] | l # ls \<Rightarrow> (c # l) # ls)"

fun join :: "nat \<Rightarrow> jsstring list \<Rightarrow> jsstring" where
  "join sep [] = []"
| "join sep [l] = l"
| "join sep (l # m # ls) = l @ sep # join sep (m # ls)"

definition startsWith :: "jsstring \<Rightarrow> jsstring \<Rightarrow> bool" where
  "startsWith line p = (take (length p) line = p)"

definition saveToken ::
  "TokenResponse \<Rightarrow> nat \<Rightarrow> nat \<Rightarrow> jsstring option \<Rightarrow> jsstring \<times> jsstring" where
  "saveToken token now33 now54 existing =
     (let envContent =
            js ''WEBEX_ACCESS_TOKEN='' @ access_token token @ [10] @
            js ''WEBEX_REFRESH_TOKEN='' @ refresh_token token @ [10] @
            js ''WEBEX_TOKEN_EXPIRES_AT='' @
              numberToString (now33 + expires_in token * 1000) @ [10];
          existingContent = (case existing of None \<Rightarrow> [] | Some content \<Rightarrow> content);
          lines = filter (\<lambda>line. \<not> startsWith line (js ''WEBEX_ACCESS_TOKEN='') \<and>
                                  \<not> startsWith line (js ''WEBEX_REFRESH_TOKEN='') \<and>
                                  \<not> startsWith line (js ''WEBEX_TOKEN_EXPIRES_AT=''))
                         (split 10 existingContent);
          newContent = join 10 (filter (\<lambda>line. trim line \<noteq> []) lines @ [envContent]);
          shellScript =
            js ''#!/bin/bash'' @ [10] @
            js ''# Webex CLI Token Environment Variables'' @ [10] @
            js ''export WEBEX_ACCESS_TOKEN='' @ [34] @ access_token token @ [34, 10] @
            js ''export WEBEX_REFRESH_TOKEN='' @ [34] @ refresh_token token @ [34, 10] @
            js ''export WEBEX_TOKEN_EXPIRES_AT='' @ [34] @
              numberToString (now54 + expires_in token * 1000) @ [34, 10]
      in (newContent, shellScript))"

section \<open>Predicates of the statements\<close>

text \<open>The token-reveal plan (avatar click, copy-token click, confirm click) fails at some
  step: no avatar selector is both found and clicked, or one of the four calls after it
  rejects.\<close>

definition revealPlanFails :: "env \<Rightarrow> bool" where
  "revealPlanFails E =
     ((\<forall>s\<in>set avatarSelectors.
         \<not> resolves E (WaitForSelector s) \<or> \<not> resolves E (Click s)) \<or>
      \<not> resolves E (WaitForSelector copyTokenSelector) \<or>
      \<not> resolves E (Click copyTokenSelector) \<or>
      \<not> resolves E (WaitForSelector okButtonSelector) \<or>
      \<not> resolves E (Click okButtonSelector))"

text \<open>What a run may do with \<open>saveToken\<close>: every token saved passed the classifier and
  the validator; at most one call; exactly one when the run ends with
  \<open>process.exit(0)\<close>; none when it returns; and when it ends with
  \<open>process.exit(1)\<close>, a call that was made is the call that threw.\<close>

definition savesChecked :: "env \<Rightarrow> run \<Rightarrow> bool" where
  "savesChecked E r =
     ((\<forall>t. SaveToken t \<in> set (trace r) \<longrightarrow>
          isValidTokenFormat (access_token t) \<and> validatePersonalToken E (access_token t)) \<and>
      length (filter isSave (trace r)) \<le> 1 \<and>
      (ending r = ProcessExit 0 \<longrightarrow> length (filter isSave (trace r)) = 1) \<and>
      (ending r = ReturnNoToken \<or> ending r = ReturnInvalidToken \<longrightarrow>
          filter isSave (trace r) = []) \<and>
      (ending r = ProcessExit 1 \<longrightarrow>
          (\<forall>t. SaveToken t \<in> set (trace r) \<longrightarrow> \<not> resolves E (SaveToken t))))"

section \<open>Concrete worlds\<close>

text \<open>The first avatar selector is found but its click throws, the third is never found,
  every other call fulfils.\<close>

definition clickThrows :: env where
  "clickThrows =
     \<lparr>resolves = (\<lambda>c. c \<noteq> Click (avatarSelectors ! 0) \<and> c \<noteq> WaitForSelector ''.md-avatar''),
      clipboardText = None, apiStatus = (\<lambda>t. None)\<rparr>"

text \<open>The token of the comment at line 383, and the same token after \<open>Bearer\<close> and a
  space.\<close>

definition sampleToken :: jsstring where
  "sampleToken = js ''YzAwMTQ5NWQtOWM1ZC00ZDg1LTk4MWYtYTEwZTg3MDE2YTE5MjBlNjQ3NTAtYjgz_PF84_1eb65fdf-9643-417f-9974-ad72cae0e10f''"

definition bearerSampleToken :: jsstring where
  "bearerSampleToken = js ''Bearer '' @ sampleToken"

text \<open>Every call fulfils, the clipboard holds the sample token, the API answers 200.\<close>

definition happy :: env where
  "happy = \<lparr>resolves = (\<lambda>c. True), clipboardText = Some sampleToken,
             apiStatus = (\<lambda>t. Some 200)\<rparr>"

text \<open>The credential that the run in \<open>happy\<close> hands to \<open>saveToken\<close>.\<close>

definition patSample :: TokenResponse where
  "patSample = \<lparr>access_token = sampleToken, refresh_token = [], expires_in = 0,
                 token_type = js ''Bearer''\<rparr>"

text \<open>As \<open>happy\<close>, but: \<open>page.goto\<close> rejects; the copy-token button never appears;
  the click on the confirm button throws; the clipboard holds \<open>{}\<close>; the identity
  request throws (as axios does on a 401); \<open>saveToken\<close> throws (as
  \<open>fs.writeFileSync\<close> does on a read-only directory).\<close>

definition gotoRejects :: env where
  "gotoRejects = happy\<lparr>resolves := (\<lambda>c. c \<noteq> Goto)\<rparr>"

definition copyButtonMissing :: env where
  "copyButtonMissing = happy\<lparr>resolves := (\<lambda>c. c \<noteq> WaitForSelector copyTokenSelector)\<rparr>"

definition confirmClickThrows :: env where
  "confirmClickThrows = happy\<lparr>resolves := (\<lambda>c. c \<noteq> Click okButtonSelector)\<rparr>"

definition jsonClipboard :: env where
  "jsonClipboard = happy\<lparr>clipboardText := Some (js ''{}'')\<rparr>"

definition apiRefuses :: env where
  "apiRefuses = happy\<lparr>apiStatus := (\<lambda>t. None)\<rparr>"

definition saveThrows :: env where
  "saveThrows = happy\<lparr>resolves := (\<lambda>c. \<not> isSave c)\<rparr>"

section \<open>Properties of the classifier and of the acquisition flow\<close>

subsection \<open>The calls a block makes\<close>

lemma perform_made_subset: "set (snd (perform E cs)) \<subseteq> set cs"
  by (induction cs) (auto split: prod.splits)

lemma avatarLoop_made:
  "c \<in> set (snd (avatarLoop E ss)) \<Longrightarrow> (\<exists>s. c = WaitForSelector s \<or> c = Click s)"
  by (induction ss) (auto split: prod.splits if_splits)

lemma readClipboard_made: "snd (readClipboard E) = [ReadClipboard]"
  by (simp add: readClipboard_def split: option.splits)

lemma extractToken_made:
  assumes "c \<in> set (snd (extractToken E))"
  shows "(\<exists>s. c = WaitForSelector s \<or> c = Click s) \<or> c = ReadClipboard"
proof -
  let ?plan = "[WaitForSelector copyTokenSelector, Click copyTokenSelector,
                WaitForSelector okButtonSelector, Click okButtonSelector]"
  from assms have "c \<in> set (snd (avatarLoop E avatarSelectors)) \<or>
      c \<in> set (snd (perform E ?plan)) \<or> c \<in> set (snd (readClipboard E))"
    by (auto simp: extractToken_def Let_def split: prod.splits if_splits)
  moreover have "c \<in> set (snd (perform E ?plan)) \<Longrightarrow> c \<in> set ?plan"
    using perform_made_subset by blast
  ultimately show ?thesis
    using avatarLoop_made [of c E avatarSelectors] by (auto simp: readClipboard_made)
qed

lemma before_close_made:
  assumes "c \<in> set (snd (perform E setupCalls) @ snd (perform E signInCalls) @
                     snd (perform E trustCalls) @ snd (extractToken E))"
  shows "\<not> isClose c \<and> \<not> isSave c"
proof -
  have "c \<in> set setupCalls \<or> c \<in> set signInCalls \<or> c \<in> set trustCalls \<or>
        c \<in> set (snd (extractToken E))"
    using assms perform_made_subset by fastforce
  then show ?thesis
    using extractToken_made [of c E]
    by (auto simp: setupCalls_def signInCalls_def trustCalls_def isClose_def isSave_def)
qed

subsection \<open>The avatar loop\<close>

lemma avatarLoop_clicked:
  "fst (avatarLoop E ss) \<longleftrightarrow> (\<exists>s\<in>set ss. resolves E (WaitForSelector s) \<and> resolves E (Click s))"
  by (induction ss) (auto split: prod.splits)

text \<open>
  Claim C10. In the loop over the avatar selectors, a selector whose wait fulfils but
  whose click throws does not end the loop: the loop goes on with the remaining selectors
  (after the two calls it made). \<open>avatarClicked\<close> stays false, so that the step fails,
  exactly when for every selector the wait timed out or the click threw.
\<close>

theorem avatarLoop_click_failure_continues:
  "(resolves E (WaitForSelector s) \<and> \<not> resolves E (Click s) \<longrightarrow>
      avatarLoop E (s # rest) =
        (fst (avatarLoop E rest), WaitForSelector s # Click s # snd (avatarLoop E rest))) \<and>
   (\<not> fst (avatarLoop E ss) \<longleftrightarrow>
      (\<forall>x\<in>set ss. \<not> resolves E (WaitForSelector x) \<or> \<not> resolves E (Click x)))"
proof
  show "resolves E (WaitForSelector s) \<and> \<not> resolves E (Click s) \<longrightarrow>
      avatarLoop E (s # rest) =
        (fst (avatarLoop E rest), WaitForSelector s # Click s # snd (avatarLoop E rest))"
    by (simp add: case_prod_unfold Let_def)
  show "\<not> fst (avatarLoop E ss) \<longleftrightarrow>
      (\<forall>x\<in>set ss. \<not> resolves E (WaitForSelector x) \<or> \<not> resolves E (Click x))"
    using avatarLoop_clicked [of E ss] by blast
qed

theorem avatarLoop_click_failure_continues_witness:
  "resolves clickThrows (WaitForSelector (avatarSelectors ! 0)) \<and>
   \<not> resolves clickThrows (Click (avatarSelectors ! 0)) \<and>
   avatarLoop clickThrows avatarSelectors =
     (True, [WaitForSelector (avatarSelectors ! 0), Click (avatarSelectors ! 0),
             WaitForSelector ''.md-top-bar__user'', Click ''.md-top-bar__user'']) \<and>
   \<not> resolves clickThrows (WaitForSelector ''.md-avatar'') \<and>
   \<not> fst (avatarLoop clickThrows [avatarSelectors ! 0, ''.md-avatar''])"
  using avatarLoop_click_failure_continues
          [of clickThrows "avatarSelectors ! 0" "tl avatarSelectors"
              "[avatarSelectors ! 0, ''.md-avatar'']"]
  by (simp add: clickThrows_def avatarSelectors_def)

subsection \<open>White space, trimming and the Bearer prefix\<close>

lemma tokenChar_not_space: "tokenChar c \<Longrightarrow> \<not> isSpace c"
  by (auto simp: tokenChar_def isSpace_def isUpper_def isLower_def isDigit_def)

lemma trim_no_space_ends:
  assumes "s = [] \<or> (\<not> isSpace (hd s) \<and> \<not> isSpace (last s))"
  shows "trim s = s"
proof (cases "s = []")
  case True
  then show ?thesis by (simp add: trim_def)
next
  case False
  with assms have h: "\<not> isSpace (hd s)" and l: "\<not> isSpace (last s)" by auto
  from False h have "dropWhile isSpace s = s"
    by (simp add: dropWhile_eq_self_iff)
  moreover from False l have "dropWhile isSpace (rev s) = rev s"
    by (simp add: dropWhile_eq_self_iff hd_rev)
  ultimately show ?thesis by (simp add: trim_def)
qed

lemma trim_dropWhile: "trim (dropWhile isSpace s) = trim s"
  by (simp add: trim_def)

lemma takeWhile_append_all:
  "\<forall>x\<in>set xs. P x \<Longrightarrow> takeWhile P (xs @ ys) = xs @ takeWhile P ys"
  by (induction xs) auto

lemma dropWhile_append_all:
  "\<forall>x\<in>set xs. P x \<Longrightarrow> dropWhile P (xs @ ys) = dropWhile P ys"
  by (induction xs) auto

lemma in_dropWhile: "c \<in> set s \<Longrightarrow> \<not> P c \<Longrightarrow> c \<in> set (dropWhile P s)"
  by (induction s) auto

lemma in_trim: "c \<in> set s \<Longrightarrow> \<not> isSpace c \<Longrightarrow> c \<in> set (trim s)"
  by (simp add: trim_def in_dropWhile)

lemma trim_decompose:
  "\<exists>w1 w2. s = w1 @ trim s @ w2 \<and> (\<forall>c\<in>set w1. isSpace c) \<and> (\<forall>c\<in>set w2. isSpace c)"
proof -
  let ?d = "dropWhile isSpace s"
  let ?e = "rev (takeWhile isSpace (rev ?d))"
  have "rev (dropWhile isSpace (rev ?d)) @ ?e =
        rev (takeWhile isSpace (rev ?d) @ dropWhile isSpace (rev ?d))"
    by (rule rev_append [symmetric])
  also have "\<dots> = rev (rev ?d)"
    by (simp only: takeWhile_dropWhile_id)
  also have "\<dots> = ?d"
    by (rule rev_rev_ident)
  finally have d: "trim s @ ?e = ?d"
    unfolding trim_def .
  have whole: "takeWhile isSpace s @ trim s @ ?e = s"
    unfolding d by (rule takeWhile_dropWhile_id)
  show ?thesis
  proof (intro exI conjI)
    show "s = takeWhile isSpace s @ trim s @ ?e"
      using whole by (rule sym)
    show "\<forall>c\<in>set (takeWhile isSpace s). isSpace c"
      by (auto dest: set_takeWhileD)
    show "\<forall>c\<in>set ?e. isSpace c"
      by (auto dest: set_takeWhileD)
  qed
qed

lemma trim_sandwich:
  assumes "\<forall>c\<in>set w1. isSpace c" "\<forall>c\<in>set w2. isSpace c"
    and "t \<noteq> []" "\<not> isSpace (hd t)" "\<not> isSpace (last t)"
  shows "trim (w1 @ t @ w2) = t"
proof -
  have "dropWhile isSpace (w1 @ t @ w2) = dropWhile isSpace (t @ w2)"
    using assms(1) by (rule dropWhile_append_all)
  also have "\<dots> = t @ w2"
    using assms(3,4) by (cases t) auto
  finally have "rev (dropWhile isSpace (w1 @ t @ w2)) = rev w2 @ rev t" by simp
  moreover have "dropWhile isSpace (rev w2 @ rev t) = dropWhile isSpace (rev t)"
    using assms(2) by (intro dropWhile_append_all) simp
  moreover have "dropWhile isSpace (rev t) = rev t"
    using assms(3,5) by (simp add: dropWhile_eq_self_iff hd_rev)
  ultimately show ?thesis by (simp add: trim_def)
qed

lemma matchPrefix_last_class:
  "matchPrefix (ps @ [p]) s \<Longrightarrow> \<exists>c\<in>set s. p c"
  by (induction ps s rule: matchPrefix.induct) (auto elim: matchPrefix.elims)

lemma matchPrefix_in_drop:
  "matchPrefix ps s \<Longrightarrow> c \<in> set s \<Longrightarrow> \<forall>p\<in>set ps. \<not> p c \<Longrightarrow> c \<in> set (drop (length ps) s)"
  by (induction ps s rule: matchPrefix.induct) auto

lemma matchPrefix_append: "matchPrefix (ps @ qs) s \<Longrightarrow> matchPrefix ps s"
  by (induction ps s rule: matchPrefix.induct) auto

lemma matchPrefix_take: "matchPrefix ps s = matchPrefix ps (take (length ps) s)"
  by (induction ps s rule: matchPrefix.induct) auto

lemma matchPrefix_length: "matchPrefix ps s \<Longrightarrow> length ps \<le> length s"
  by (induction ps s rule: matchPrefix.induct) auto

lemma matchPrefix_nth: "matchPrefix ps s \<Longrightarrow> i < length ps \<Longrightarrow> (ps ! i) (s ! i)"
proof (induction ps s arbitrary: i rule: matchPrefix.induct)
  case (3 p ps c cs)
  then show ?case by (cases i) auto
qed auto

lemma hasBearerPrefix_take: "hasBearerPrefix s = hasBearerPrefix (take 7 s)"
proof -
  have "length (pat ''Bearer'' @ [isSpace]) = 7" by (simp add: pat_def)
  then show ?thesis
    unfolding hasBearerPrefix_def using matchPrefix_take [of "pat ''Bearer'' @ [isSpace]" s]
    by (simp only:)
qed

lemma hasBearerPrefix_shape:
  assumes "hasBearerPrefix s"
  shows "7 \<le> length s \<and> \<not> isSpace (hd s) \<and> isSpace (hd (drop 6 s))"
proof -
  let ?ps = "pat ''Bearer'' @ [isSpace]"
  have m: "matchPrefix ?ps s" using assms by (simp add: hasBearerPrefix_def)
  have len: "length ?ps = 7" by (simp add: pat_def)
  have long: "7 \<le> length s"
    using matchPrefix_length [OF m] by (simp only: len)
  have "(?ps ! 0) (s ! 0)" by (rule matchPrefix_nth [OF m]) (simp add: pat_def)
  then have "ci 66 (s ! 0)" by (simp add: pat_def)
  then have "\<not> isSpace (s ! 0)"
    by (auto simp: ci_def canonicalize_def isLower_def isSpace_def split: if_splits)
  moreover have "hd s = s ! 0" using long by (cases s) auto
  moreover have "(?ps ! 6) (s ! 6)" by (rule matchPrefix_nth [OF m]) (simp add: pat_def)
  then have "isSpace (s ! 6)" by (simp add: pat_def)
  moreover have "hd (drop 6 s) = s ! 6" using long by (simp add: hd_drop_conv_nth)
  ultimately show ?thesis using long by simp
qed

lemma no_space_no_bearer:
  assumes "list_all (\<lambda>c. \<not> isSpace c) s"
  shows "\<not> hasBearerPrefix s"
  using assms matchPrefix_last_class [of "pat ''Bearer''" isSpace s]
  by (auto simp: hasBearerPrefix_def list_all_iff)

lemma hasBearerPrefix_literal: "hasBearerPrefix (js ''Bearer '' @ x)"
  by (simp add: hasBearerPrefix_def js_def pat_def ci_def isSpace_def)

lemma equals_in_replaceBearer:
  assumes "61 \<in> set s"
  shows "61 \<in> set (replaceBearer s)"
proof (cases "hasBearerPrefix s")
  case False
  then show ?thesis using assms by (simp add: replaceBearer_def)
next
  case True
  then have "matchPrefix (pat ''Bearer'') s"
    unfolding hasBearerPrefix_def by (rule matchPrefix_append)
  moreover have "\<forall>p\<in>set (pat ''Bearer''). \<not> p 61"
    by (simp add: pat_def ci_def canonicalize_def isLower_def)
  ultimately have "61 \<in> set (drop (length (pat ''Bearer'')) s)"
    using assms matchPrefix_in_drop by blast
  moreover have "length (pat ''Bearer'') = 6" by (simp add: pat_def)
  ultimately have "61 \<in> set (drop 6 s)" by (simp only:)
  then have "61 \<in> set (dropWhile isSpace (drop 6 s))"
    by (rule in_dropWhile) (simp add: isSpace_def)
  with True show ?thesis by (simp add: replaceBearer_def)
qed

subsection \<open>The cleaned form of a string\<close>

lemma cleanToken_no_space:
  assumes "list_all (\<lambda>c. \<not> isSpace c) s"
  shows "cleanToken s = s"
proof -
  have "s = [] \<or> (\<not> isSpace (hd s) \<and> \<not> isSpace (last s))"
    using assms by (cases s) (auto simp: list_all_iff)
  then show ?thesis
    using no_space_no_bearer [OF assms]
    by (simp add: cleanToken_def replaceBearer_def trim_no_space_ends)
qed

lemma cleanToken_tokenChars: "list_all tokenChar s \<Longrightarrow> cleanToken s = s"
  by (rule cleanToken_no_space) (auto simp: list_all_iff tokenChar_not_space)

lemma cleanToken_bearer_literal: "cleanToken (js ''Bearer '' @ x) = trim x"
proof -
  have "drop 6 (js ''Bearer '' @ x) = 32 # x" by (simp add: js_def)
  then have "replaceBearer (js ''Bearer '' @ x) = dropWhile isSpace x"
    using hasBearerPrefix_literal [of x] by (simp add: replaceBearer_def isSpace_def)
  then show ?thesis by (simp add: cleanToken_def trim_dropWhile)
qed

lemma isValidTokenFormat_cleaned:
  "cleanToken a = cleanToken b \<Longrightarrow> isValidTokenFormat a = isValidTokenFormat b"
  by (simp add: isValidTokenFormat_def)

lemma isValidTokenFormat_tokenChars:
  "isValidTokenFormat s \<Longrightarrow> list_all tokenChar (cleanToken s)"
  by (simp add: isValidTokenFormat_def Let_def webexTokenPattern_def split: if_splits)

lemma isValidTokenFormat_cleanToken:
  assumes "isValidTokenFormat s"
  shows "isValidTokenFormat (cleanToken s)"
proof -
  have "cleanToken (cleanToken s) = cleanToken s"
    using assms by (simp add: isValidTokenFormat_tokenChars cleanToken_tokenChars)
  then show ?thesis
    using assms isValidTokenFormat_cleaned by blast
qed

text \<open>The flow trims the clipboard text before it cleans it (lines 295 and 327); for a
  text that the classifier accepted this gives the string the classifier looked at.\<close>

lemma cleanToken_after_trim:
  assumes "isValidTokenFormat clip"
  shows "cleanToken (trim clip) = cleanToken clip"
proof -
  let ?t = "cleanToken clip"
  have chars: "list_all tokenChar ?t"
    using assms by (rule isValidTokenFormat_tokenChars)
  have "80 \<le> length ?t"
    using assms by (simp add: isValidTokenFormat_def Let_def split: if_splits)
  then have ne: "?t \<noteq> []" by auto
  then have ends: "\<not> isSpace (hd ?t)" "\<not> isSpace (last ?t)"
    using chars by (auto simp: list_all_iff tokenChar_not_space)
  show ?thesis
  proof (cases "hasBearerPrefix clip")
    case False
    then have "trim clip = ?t" by (simp add: cleanToken_def replaceBearer_def)
    then show ?thesis using chars by (simp add: cleanToken_tokenChars)
  next
    case True
    then have shape: "7 \<le> length clip" "\<not> isSpace (hd clip)" "isSpace (hd (drop 6 clip))"
      using hasBearerPrefix_shape by auto
    from True have "?t = trim (drop 6 clip)"
      by (simp add: cleanToken_def replaceBearer_def trim_dropWhile)
    then obtain w1 w2 where dec: "drop 6 clip = w1 @ ?t @ w2"
      and w1: "\<forall>c\<in>set w1. isSpace c" and w2: "\<forall>c\<in>set w2. isSpace c"
      using trim_decompose [of "drop 6 clip"] by auto
    have w1ne: "w1 \<noteq> []"
      using dec shape(3) ends(1) ne by (cases w1) auto
    let ?p = "take 6 clip"
    have lenp: "length ?p = 6" using shape(1) by simp
    have whole: "?p @ w1 @ ?t @ w2 = clip"
      using dec append_take_drop_id [of 6 clip] by simp
    have pne: "?p \<noteq> []" using lenp by auto
    have "trim ([] @ (?p @ w1 @ ?t) @ w2) = ?p @ w1 @ ?t"
    proof (rule trim_sandwich)
      show "\<not> isSpace (hd (?p @ w1 @ ?t))"
        using pne shape(2) shape(1) by (cases clip) auto
      show "\<not> isSpace (last (?p @ w1 @ ?t))"
        using ne ends(2) by simp
    qed (use w2 pne in auto)
    then have tr: "trim clip = ?p @ w1 @ ?t"
      using whole by simp
    have long: "7 \<le> length (?p @ w1)"
      using lenp w1ne by (cases w1) auto
    have "take 7 (?p @ w1 @ ?t) = take 7 clip"
    proof -
      have "take 7 (?p @ w1 @ ?t) = take 7 (?p @ w1)"
        using long by simp
      moreover have "take 7 ((?p @ w1) @ (?t @ w2)) = take 7 clip"
        using whole by simp
      moreover have "take 7 ((?p @ w1) @ (?t @ w2)) = take 7 (?p @ w1)"
        using long by (simp only: take_append) simp
      ultimately show ?thesis by (simp only:)
    qed
    then have "hasBearerPrefix (?p @ w1 @ ?t)"
      using True hasBearerPrefix_take [of clip] hasBearerPrefix_take [of "?p @ w1 @ ?t"]
      by simp
    moreover have "drop 6 (?p @ w1 @ ?t) = w1 @ ?t"
      using lenp by simp
    moreover have "dropWhile isSpace (w1 @ ?t) = ?t"
      using w1 ne ends(1) by (simp add: dropWhile_append_all dropWhile_eq_self_iff)
    ultimately have "replaceBearer (?p @ w1 @ ?t) = ?t"
      by (simp add: replaceBearer_def)
    then have "cleanToken (trim clip) = trim ?t"
      using tr by (simp add: cleanToken_def)
    also have "trim ?t = ?t"
      using ends by (intro trim_no_space_ends) simp
    finally show ?thesis .
  qed
qed

lemma saved_token_checked:
  assumes "isValidTokenFormat clip"
  shows "isValidTokenFormat (cleanToken (trim clip))"
  using assms by (simp add: cleanToken_after_trim isValidTokenFormat_cleanToken)

subsection \<open>The sample token\<close>

lemma replicate_ten: "replicate 10 x = [x, x, x, x, x, x, x, x, x, x]"
  by (simp add: numeral_eq_Suc)

lemma sampleToken_chars: "list_all tokenChar sampleToken"
  by (simp add: sampleToken_def js_def tokenChar_def isUpper_def isLower_def isDigit_def)

lemma sampleToken_clean: "cleanToken sampleToken = sampleToken"
  by (simp add: sampleToken_chars cleanToken_tokenChars)

lemma sampleToken_length: "length sampleToken = 106"
  by (simp add: sampleToken_def js_def)

lemma sampleToken_nonempty: "sampleToken \<noteq> []"
  using sampleToken_length by auto

lemma sampleToken_trim: "trim sampleToken = sampleToken"
  using sampleToken_chars sampleToken_length
  by (intro trim_no_space_ends) (cases sampleToken; auto simp: list_all_iff tokenChar_not_space)

lemma sampleToken_mixed:
  "list_ex isDigit sampleToken \<and> list_ex isUpper sampleToken \<and> list_ex isLower sampleToken"
  by (simp add: sampleToken_def js_def isUpper_def isLower_def isDigit_def)

lemma sampleToken_not_json:
  "\<not> list_ex (\<lambda>pattern. pattern sampleToken) excludeJSONPatterns"
  by (simp add: sampleToken_def js_def excludeJSONPatterns_def pat_def ci_def canonicalize_def
        isLower_def wrapped_def)

lemma sampleToken_not_placeholder:
  "\<not> list_ex (\<lambda>pattern. pattern sampleToken) excludePatterns"
  by (simp add: sampleToken_def js_def excludePatterns_def pat_def ci_def canonicalize_def
        isLower_def isUpper_def isLetter_def dottedWords_def dot_def replicate_ten)

lemma sampleToken_valid: "isValidTokenFormat sampleToken"
  using sampleToken_chars sampleToken_mixed sampleToken_not_json sampleToken_not_placeholder
        sampleToken_nonempty
  by (simp add: isValidTokenFormat_def Let_def webexTokenPattern_def sampleToken_clean
        sampleToken_length)

lemma sampleToken_no_bearer: "\<not> hasBearerPrefix sampleToken"
  by (rule no_space_no_bearer)
     (use sampleToken_chars in \<open>auto simp: list_all_iff tokenChar_not_space\<close>)

lemma bearerSampleToken_valid: "isValidTokenFormat bearerSampleToken"
proof -
  have "cleanToken bearerSampleToken = cleanToken sampleToken"
    unfolding bearerSampleToken_def
    by (simp add: cleanToken_bearer_literal sampleToken_trim sampleToken_clean)
  then show ?thesis
    using sampleToken_valid isValidTokenFormat_cleaned by blast
qed

lemma braces_rejected: "\<not> isValidTokenFormat (js ''{}'')"
proof -
  have "cleanToken (js ''{}'') = js ''{}''"
    by (rule cleanToken_no_space) (simp add: js_def isSpace_def)
  then have "length (cleanToken (js ''{}'')) < 80"
    by (simp add: js_def)
  then show ?thesis
    by (simp add: isValidTokenFormat_def Let_def)
qed

subsection \<open>The classifier\<close>



text \<open>
  Claim C8. The classifier rejects every string that contains the character \<open>=\<close>
  (code unit 61), which is outside \<open>[A-Za-z0-9+/_-]\<close>. So a base64 string with
  \<open>=\<close> padding is no credential for the classifier, although the debug check of
  line 337 takes base64 characters followed by any number of \<open>=\<close> for base64 format.
\<close>

theorem classifier_rejects_equals_sign:
  "(61 \<in> set s \<longrightarrow> \<not> isValidTokenFormat s) \<and>
   (b \<noteq> [] \<and> list_all base64Char b \<longrightarrow>
      base64Format (b @ replicate n 61) \<and> \<not> isValidTokenFormat (b @ replicate (Suc n) 61))"
proof -
  have reject: "\<not> isValidTokenFormat t" if "61 \<in> set t" for t
  proof -
    have "61 \<in> set (cleanToken t)"
      using that by (simp add: cleanToken_def equals_in_replaceBearer in_trim isSpace_def)
    moreover have "\<not> tokenChar 61"
      by (simp add: tokenChar_def isUpper_def isLower_def isDigit_def)
    ultimately have "\<not> list_all tokenChar (cleanToken t)"
      by (auto simp: list_all_iff)
    then show ?thesis
      using isValidTokenFormat_tokenChars by blast
  qed
  have accept: "base64Format (b @ replicate n 61)" if "b \<noteq> []" "list_all base64Char b"
  proof -
    have all: "\<forall>x\<in>set b. base64Char x" using that by (simp add: list_all_iff)
    have no: "\<not> base64Char 61"
      by (simp add: base64Char_def isUpper_def isLower_def isDigit_def)
    have "takeWhile base64Char (replicate n 61) = []"
      using no by (cases n) auto
    moreover have "dropWhile base64Char (replicate n 61) = replicate n 61"
      using no by (cases n) auto
    ultimately show ?thesis
      using that all
      by (simp add: base64Format_def takeWhile_append_all dropWhile_append_all list_all_iff)
  qed
  show ?thesis using reject accept by simp
qed

theorem classifier_rejects_equals_sign_witness:
  "61 \<in> set (sampleToken @ js ''=='') \<and> \<not> isValidTokenFormat (sampleToken @ js ''=='') \<and>
   js ''QUJDenp6MTIz'' \<noteq> [] \<and> list_all base64Char (js ''QUJDenp6MTIz'') \<and>
   base64Format (js ''QUJDenp6MTIz'' @ replicate 1 61) \<and>
   \<not> isValidTokenFormat (js ''QUJDenp6MTIz'' @ replicate (Suc 1) 61)"
  using classifier_rejects_equals_sign [of "sampleToken @ js ''==''" "js ''QUJDenp6MTIz''" 1]
  by (simp add: js_def base64Char_def isUpper_def isLower_def isDigit_def)

text \<open>
  Claim C6, as amended. The classifier strips one leading Bearer prefix, not two: for
  every string \<open>x\<close> that does not itself begin with \<open>Bearer\<close> (in any letter case)
  followed by white space, \<open>"Bearer " + x\<close> gets the verdict of \<open>x\<close>.
\<close>

theorem classifier_bearer_prefix_once:
  assumes "\<not> hasBearerPrefix x"
  shows "isValidTokenFormat (js ''Bearer '' @ x) = isValidTokenFormat x"
proof (rule isValidTokenFormat_cleaned)
  from assms have "cleanToken x = trim x"
    by (simp add: cleanToken_def replaceBearer_def)
  then show "cleanToken (js ''Bearer '' @ x) = cleanToken x"
    by (simp add: cleanToken_bearer_literal)
qed

theorem classifier_bearer_prefix_once_witness:
  "\<not> hasBearerPrefix sampleToken \<and>
   isValidTokenFormat (js ''Bearer '' @ sampleToken) \<and> isValidTokenFormat sampleToken"
  using classifier_bearer_prefix_once [of sampleToken] sampleToken_no_bearer sampleToken_valid
  by simp

text \<open>The claim as the specification states it fails where \<open>x\<close> is an accepted token
  behind a Bearer prefix of its own: \<open>x\<close> is accepted, \<open>"Bearer " + x\<close> is not.\<close>

theorem classifier_bearer_twice_counterexample:
  "isValidTokenFormat bearerSampleToken \<and>
   \<not> isValidTokenFormat (js ''Bearer '' @ bearerSampleToken)"
proof
  show "isValidTokenFormat bearerSampleToken"
    by (rule bearerSampleToken_valid)
  have last: "last sampleToken = 102"
    by (simp add: sampleToken_def js_def)
  have "cleanToken (js ''Bearer '' @ bearerSampleToken) = trim bearerSampleToken"
    by (rule cleanToken_bearer_literal)
  also have "trim bearerSampleToken = bearerSampleToken"
    by (rule trim_no_space_ends)
       (simp add: bearerSampleToken_def js_def isSpace_def sampleToken_nonempty last)
  finally have "cleanToken (js ''Bearer '' @ bearerSampleToken) = bearerSampleToken" .
  moreover have "\<not> list_all tokenChar bearerSampleToken"
    by (simp add: bearerSampleToken_def js_def tokenChar_def isUpper_def isLower_def
          isDigit_def)
  ultimately show "\<not> isValidTokenFormat (js ''Bearer '' @ bearerSampleToken)"
    using isValidTokenFormat_tokenChars by force
qed

subsection \<open>Runs of the acquisition flow\<close>

lemma getTokenAutomatically_unfold:
  "getTokenAutomatically E =
     (if \<not> fst (perform E setupCalls)
      then \<lparr>ending = ProcessExit 1, trace = snd (perform E setupCalls)\<rparr>
      else afterExtraction E (fst (extractToken E))
             (snd (perform E setupCalls) @ snd (perform E signInCalls) @
              snd (perform E trustCalls) @ snd (extractToken E)))"
  by (simp add: getTokenAutomatically_def case_prod_unfold Let_def)

lemma perform_done: "fst (perform E cs) \<longleftrightarrow> (\<forall>c\<in>set cs. resolves E c)"
  by (induction cs) (auto split: prod.splits)

lemma filter_none: "\<forall>c\<in>set xs. \<not> P c \<Longrightarrow> filter P xs = []"
  by (induction xs) auto

lemma extractToken_token:
  assumes "fst (extractToken E) = Some t"
  shows "\<exists>clip. isValidTokenFormat clip \<and> t = trim clip"
  using assms
  by (auto simp: extractToken_def readClipboard_def Let_def
           split: prod.splits if_splits option.splits)

lemma extractToken_plan_failed:
  assumes "revealPlanFails E"
  shows "fst (extractToken E) = None \<and> ReadClipboard \<notin> set (snd (extractToken E))"
proof (cases "fst (avatarLoop E avatarSelectors)")
  case False
  then show ?thesis
    using avatarLoop_made [of ReadClipboard E avatarSelectors]
    by (auto simp: extractToken_def case_prod_unfold Let_def)
next
  case True
  let ?plan = "[WaitForSelector copyTokenSelector, Click copyTokenSelector,
                WaitForSelector okButtonSelector, Click okButtonSelector]"
  from True assms have "\<not> fst (perform E ?plan)"
    unfolding perform_done revealPlanFails_def avatarLoop_clicked by auto
  moreover have "ReadClipboard \<notin> set (snd (perform E ?plan))"
    using perform_made_subset [of E ?plan] by auto
  ultimately show ?thesis
    using True avatarLoop_made [of ReadClipboard E avatarSelectors]
    by (auto simp: extractToken_def case_prod_unfold Let_def)
qed

lemmas run_simps =
  getTokenAutomatically_def setupCalls_def signInCalls_def trustCalls_def extractToken_def
  avatarSelectors_def readClipboard_def afterExtraction_def validatePersonalToken_def
  copyTokenSelector_def okButtonSelector_def emailSelector2_def nextButtonSelector_def
  passwordSelector_def isSave_def

lemma happy_run:
  "getTokenAutomatically happy =
     \<lparr>ending = ProcessExit 0,
      trace = setupCalls @ signInCalls @ trustCalls @
        [WaitForSelector (avatarSelectors ! 0), Click (avatarSelectors ! 0),
         WaitForSelector copyTokenSelector, Click copyTokenSelector,
         WaitForSelector okButtonSelector, Click okButtonSelector, ReadClipboard,
         Close 308, ValidatePersonalToken sampleToken, SaveToken patSample]\<rparr>"
  by (simp add: run_simps happy_def patSample_def sampleToken_valid sampleToken_trim
        sampleToken_clean sampleToken_nonempty)

lemma jsonClipboard_run: "ending (getTokenAutomatically jsonClipboard) = ReturnNoToken"
  using braces_rejected by (simp add: run_simps jsonClipboard_def happy_def)

lemma saveThrows_run:
  "ending (getTokenAutomatically saveThrows) = ProcessExit 1 \<and>
   filter isSave (trace (getTokenAutomatically saveThrows)) = [SaveToken patSample]"
  by (simp add: run_simps saveThrows_def happy_def patSample_def sampleToken_valid
        sampleToken_trim sampleToken_clean sampleToken_nonempty)

text \<open>
  Claim C1, which the code breaks. \<open>puppeteer.launch\<close> fulfils, so the browser is
  open; \<open>page.goto\<close> rejects; the run ends in the outer \<open>catch\<close> with
  \<open>process.exit(1)\<close> and has called \<open>browser.close()\<close> nowhere.
\<close>

theorem navigation_failure_leaves_session_open:
  "resolves gotoRejects Launch \<and>
   getTokenAutomatically gotoRejects =
     \<lparr>ending = ProcessExit 1,
      trace = [ImportPuppeteer, Launch, NewPage, EvaluateResize, OverridePermissions, Goto]\<rparr> \<and>
   filter isClose (trace (getTokenAutomatically gotoRejects)) = []"
  by (simp add: run_simps gotoRejects_def happy_def isClose_def)

text \<open>
  Claim C7, which the code breaks. With \<open>{}\<close> on the clipboard the classifier refuses
  the candidate, and with an API that refuses the token the validator does; both runs
  return without \<open>process.exit\<close>, and the \<open>login\<close> command ends with status 0.
\<close>

theorem rejected_candidate_exits_zero:
  "ending (getTokenAutomatically jsonClipboard) = ReturnNoToken \<and>
   loginCommand jsonClipboard = 0 \<and>
   ending (getTokenAutomatically apiRefuses) = ReturnInvalidToken \<and>
   loginCommand apiRefuses = 0"
proof -
  have "ending (getTokenAutomatically apiRefuses) = ReturnInvalidToken"
    by (simp add: run_simps apiRefuses_def happy_def sampleToken_valid sampleToken_trim
          sampleToken_clean sampleToken_nonempty)
  then show ?thesis
    using jsonClipboard_run
    by (simp add: loginCommand_def jsonClipboard_def apiRefuses_def happy_def)
qed

text \<open>
  Claim C4, which the code breaks. The run in \<open>happy\<close> hands \<open>saveToken\<close> a
  credential with an empty refresh token, token type \<open>Bearer\<close> and \<open>expires_in\<close> 0;
  \<open>saveToken\<close>, called when the clock reads 1700000000000, writes that reading as
  \<open>WEBEX_TOKEN_EXPIRES_AT\<close>, not 0.
\<close>

theorem persisted_expiry_is_the_clock:
  "SaveToken patSample \<in> set (trace (getTokenAutomatically happy)) \<and>
   refresh_token patSample = [] \<and> token_type patSample = js ''Bearer'' \<and>
   expires_in patSample = 0 \<and>
   fst (saveToken patSample 1700000000000 1700000000000 None) =
     js ''WEBEX_ACCESS_TOKEN='' @ sampleToken @ [10] @
     js ''WEBEX_REFRESH_TOKEN='' @ [10] @
     js ''WEBEX_TOKEN_EXPIRES_AT=1700000000000'' @ [10]"
proof -
  have "numberToString 1700000000000 = js ''1700000000000''"
    by (simp add: numberToString.simps js_def)
  then show ?thesis
    by (simp add: happy_run saveToken_def patSample_def startsWith_def trim_def)
       (simp add: js_def)
qed

subsection \<open>What is saved\<close>

lemma afterExtraction_saves:
  assumes made: "\<forall>c\<in>set made. \<not> isSave c"
    and token: "\<forall>t. token = Some t \<longrightarrow> (\<exists>clip. isValidTokenFormat clip \<and> t = trim clip)"
  shows "savesChecked E (afterExtraction E token made)"
proof -
  have none: "filter isSave made = []" using made by (rule filter_none)
  have notin: "SaveToken t \<notin> set made" for t
    using made by (auto simp: isSave_def)
  show ?thesis
  proof (cases "case token of None \<Rightarrow> None | Some t \<Rightarrow> if t = [] then None else Some t")
    case None
    then show ?thesis
      by (simp add: savesChecked_def afterExtraction_def none notin isSave_def)
  next
    case (Some t)
    then have "token = Some t" by (auto split: option.splits if_splits)
    with token obtain clip where "isValidTokenFormat clip" "t = trim clip" by auto
    then have ok: "isValidTokenFormat (cleanToken t)" by (simp add: saved_token_checked)
    show ?thesis
      using Some ok
      by (simp add: savesChecked_def afterExtraction_def none notin isSave_def Let_def)
  qed
qed

lemma getTokenAutomatically_saves: "savesChecked E (getTokenAutomatically E)"
proof (cases "fst (perform E setupCalls)")
  case False
  have "\<forall>c\<in>set (snd (perform E setupCalls)). \<not> isSave c"
    using perform_made_subset [of E setupCalls] by (auto simp: setupCalls_def isSave_def)
  then have "filter isSave (snd (perform E setupCalls)) = []"
    and "\<And>t. SaveToken t \<notin> set (snd (perform E setupCalls))"
    by (auto simp: filter_none isSave_def)
  with False show ?thesis
    by (simp add: getTokenAutomatically_unfold savesChecked_def)
next
  case True
  let ?made = "snd (perform E setupCalls) @ snd (perform E signInCalls) @
               snd (perform E trustCalls) @ snd (extractToken E)"
  have "savesChecked E (afterExtraction E (fst (extractToken E)) ?made)"
  proof (rule afterExtraction_saves)
    show "\<forall>c\<in>set ?made. \<not> isSave c"
      using before_close_made [of _ E] by blast
    show "\<forall>t. fst (extractToken E) = Some t \<longrightarrow>
            (\<exists>clip. isValidTokenFormat clip \<and> t = trim clip)"
      using extractToken_token by blast
  qed
  with True show ?thesis
    by (simp add: getTokenAutomatically_unfold)
qed

text \<open>
  Claim C2, as amended. In every run, \<open>saveToken\<close> is called only with a token that
  passes the classifier and the validator, and at most once; exactly once when the run
  ends with \<open>process.exit(0)\<close>; never when the run returns (no token, or a token that
  the API refused); and when the run ends with \<open>process.exit(1)\<close>, a \<open>saveToken\<close>
  call that was made is the call that threw.
\<close>

theorem only_checked_tokens_are_saved:
  "(\<forall>t. SaveToken t \<in> set (trace (getTokenAutomatically E)) \<longrightarrow>
        isValidTokenFormat (access_token t) \<and> validatePersonalToken E (access_token t)) \<and>
   length (filter isSave (trace (getTokenAutomatically E))) \<le> 1 \<and>
   (ending (getTokenAutomatically E) = ProcessExit 0 \<longrightarrow>
      length (filter isSave (trace (getTokenAutomatically E))) = 1) \<and>
   (ending (getTokenAutomatically E) = ReturnNoToken \<or>
    ending (getTokenAutomatically E) = ReturnInvalidToken \<longrightarrow>
      filter isSave (trace (getTokenAutomatically E)) = []) \<and>
   (ending (getTokenAutomatically E) = ProcessExit 1 \<longrightarrow>
      (\<forall>t. SaveToken t \<in> set (trace (getTokenAutomatically E)) \<longrightarrow>
         \<not> resolves E (SaveToken t)))"
  using getTokenAutomatically_saves [of E] unfolding savesChecked_def .

theorem only_checked_tokens_are_saved_witness:
  "SaveToken patSample \<in> set (trace (getTokenAutomatically happy)) \<and>
   isValidTokenFormat (access_token patSample) \<and>
   validatePersonalToken happy (access_token patSample) \<and>
   ending (getTokenAutomatically happy) = ProcessExit 0 \<and>
   length (filter isSave (trace (getTokenAutomatically happy))) = 1 \<and>
   ending (getTokenAutomatically jsonClipboard) = ReturnNoToken \<and>
   filter isSave (trace (getTokenAutomatically jsonClipboard)) = [] \<and>
   ending (getTokenAutomatically saveThrows) = ProcessExit 1 \<and>
   SaveToken patSample \<in> set (trace (getTokenAutomatically saveThrows)) \<and>
   \<not> resolves saveThrows (SaveToken patSample)"
proof -
  have a: "SaveToken patSample \<in> set (trace (getTokenAutomatically happy))"
    and b: "ending (getTokenAutomatically happy) = ProcessExit 0"
    by (simp_all add: happy_run)
  have c: "ending (getTokenAutomatically jsonClipboard) = ReturnNoToken"
    by (rule jsonClipboard_run)
  have d: "ending (getTokenAutomatically saveThrows) = ProcessExit 1"
    and e: "SaveToken patSample \<in> set (trace (getTokenAutomatically saveThrows))"
    using saveThrows_run by (auto simp: filter_eq_Cons_iff)
  from a b c d e show ?thesis
    using only_checked_tokens_are_saved [of happy]
          only_checked_tokens_are_saved [of jsonClipboard]
          only_checked_tokens_are_saved [of saveThrows]
    by blast
qed

text \<open>The claim as the specification states it fails where \<open>saveToken\<close> itself throws:
  the run ends with \<open>process.exit(1)\<close>, a failure, and has called \<open>saveToken\<close>.\<close>

theorem save_on_failure_counterexample:
  "ending (getTokenAutomatically saveThrows) = ProcessExit 1 \<and>
   filter isSave (trace (getTokenAutomatically saveThrows)) = [SaveToken patSample]"
  by (rule saveThrows_run)

subsection \<open>A reveal plan that fails\<close>

text \<open>
  Claim C5, as amended. When the setup calls fulfil and the token-reveal plan fails at
  any step, the failure is caught inside the flow: the run goes on to
  \<open>browser.close()\<close> at line 308 and, when both \<open>close\<close> calls fulfil, returns
  with no token. The clipboard is not read on the way.
\<close>

theorem reveal_failure_skips_clipboard:
  assumes "fst (perform E setupCalls)" and "revealPlanFails E"
  shows "ReadClipboard \<notin> set (trace (getTokenAutomatically E)) \<and>
         Close 308 \<in> set (trace (getTokenAutomatically E)) \<and>
         (resolves E (Close 308) \<and> resolves E (Close 320) \<longrightarrow>
            ending (getTokenAutomatically E) = ReturnNoToken)"
proof -
  let ?made = "snd (perform E setupCalls) @ snd (perform E signInCalls) @
               snd (perform E trustCalls) @ snd (extractToken E)"
  have tok: "fst (extractToken E) = None"
    and ex: "ReadClipboard \<notin> set (snd (extractToken E))"
    using extractToken_plan_failed [OF assms(2)] by auto
  have "ReadClipboard \<notin> set (snd (perform E cs))" if "ReadClipboard \<notin> set cs" for cs
    using that perform_made_subset [of E cs] by auto
  then have "ReadClipboard \<notin> set ?made"
    using ex by (simp add: setupCalls_def signInCalls_def trustCalls_def)
  moreover have "getTokenAutomatically E = afterExtraction E None ?made"
    using assms(1) tok by (simp add: getTokenAutomatically_unfold)
  ultimately show ?thesis
    by (simp add: afterExtraction_def)
qed

theorem reveal_failure_skips_clipboard_witness:
  "fst (perform confirmClickThrows setupCalls) \<and> revealPlanFails confirmClickThrows \<and>
   ReadClipboard \<notin> set (trace (getTokenAutomatically confirmClickThrows)) \<and>
   Close 308 \<in> set (trace (getTokenAutomatically confirmClickThrows)) \<and>
   resolves confirmClickThrows (Close 308) \<and> resolves confirmClickThrows (Close 320) \<and>
   ending (getTokenAutomatically confirmClickThrows) = ReturnNoToken"
proof -
  have a: "fst (perform confirmClickThrows setupCalls)"
    by (simp add: perform_done setupCalls_def confirmClickThrows_def happy_def)
  have b: "revealPlanFails confirmClickThrows"
    by (simp add: revealPlanFails_def confirmClickThrows_def happy_def)
  show ?thesis
    using reveal_failure_skips_clipboard [OF a b] a b
    by (simp add: confirmClickThrows_def happy_def)
qed

text \<open>The claim as the specification states it fails where the copy-token button never
  appears: the plan fails at its second step and the run ends without a clipboard read.\<close>

theorem reveal_failure_skips_clipboard_counterexample:
  "revealPlanFails copyButtonMissing \<and>
   ReadClipboard \<notin> set (trace (getTokenAutomatically copyButtonMissing)) \<and>
   ending (getTokenAutomatically copyButtonMissing) = ReturnNoToken"
  by (simp add: run_simps revealPlanFails_def copyButtonMissing_def happy_def)

subsection \<open>Closing the browser\<close>

text \<open>
  Claim C9. On the path where \<open>token\<close> is null (or empty) after the extraction block,
  \<open>browser.close()\<close> is called twice: a run that ends with the \<open>return\<close> of line 321
  has made exactly the calls of lines 308 and 320; and from line 308 on, with no token and
  a first \<open>close\<close> that fulfils, both calls are made.
\<close>

theorem no_token_closes_twice:
  "(ending (getTokenAutomatically E) = ReturnNoToken \<longrightarrow>
      filter isClose (trace (getTokenAutomatically E)) = [Close 308, Close 320]) \<and>
   ((token = None \<or> token = Some []) \<and> resolves E (Close 308) \<longrightarrow>
      trace (afterExtraction E token made) = made @ [Close 308, Close 320])"
proof
  let ?made = "snd (perform E setupCalls) @ snd (perform E signInCalls) @
               snd (perform E trustCalls) @ snd (extractToken E)"
  have "\<forall>c\<in>set ?made. \<not> isClose c"
    using before_close_made [of _ E] by blast
  then have none: "filter isClose ?made = []" by (rule filter_none)
  show "ending (getTokenAutomatically E) = ReturnNoToken \<longrightarrow>
      filter isClose (trace (getTokenAutomatically E)) = [Close 308, Close 320]"
    using none
    by (auto simp: getTokenAutomatically_unfold afterExtraction_def isClose_def Let_def
             split: if_splits option.splits)
  show "(token = None \<or> token = Some []) \<and> resolves E (Close 308) \<longrightarrow>
      trace (afterExtraction E token made) = made @ [Close 308, Close 320]"
    by (auto simp: afterExtraction_def)
qed

theorem no_token_closes_twice_witness:
  "ending (getTokenAutomatically jsonClipboard) = ReturnNoToken \<and>
   filter isClose (trace (getTokenAutomatically jsonClipboard)) = [Close 308, Close 320] \<and>
   resolves jsonClipboard (Close 308) \<and>
   trace (afterExtraction jsonClipboard None [Launch]) = [Launch, Close 308, Close 320]"
proof -
  have d: "resolves jsonClipboard (Close 308)"
    by (simp add: jsonClipboard_def happy_def)
  show ?thesis
    using no_token_closes_twice [of jsonClipboard None "[Launch]"] jsonClipboard_run d by simp
qed

end
